theory Spec2Isabelle
  imports Complex_Main "HOL-Library.FSet"
begin

section \<open>Figure management of mayavi.tools.figure\<close>

text \<open>
  The module \<^verbatim>\<open>enthought/mayavi/tools/figure.py\<close> holds one module-level variable, the set
  \<^verbatim>\<open>__scene_number_list\<close>, and five functions: \<^verbatim>\<open>figure\<close>, \<^verbatim>\<open>gcf\<close>, \<^verbatim>\<open>clf\<close>,
  \<^verbatim>\<open>draw\<close> and \<^verbatim>\<open>savefig\<close>. They work on objects owned by the rendering engine. The
  objects are mutable and shared (\<^verbatim>\<open>engine.current_scene\<close> is one of \<^verbatim>\<open>engine.scenes\<close>), so
  they live in a store addressed by references. Exceptions are values; a function returns
  its result together with the state it leaves behind, also when it raises.
\<close>

subsection \<open>Objects of the engine\<close>

type_synonym addr = nat
type_synonym eid = nat
type_synonym color = "real \<times> real \<times> real"
type_synonym pixels = "nat \<times> nat"

text \<open>An attribute of a Python object is there or not; reading an absent one raises.\<close>

datatype 'a attr = Absent | Present 'a

text \<open>
  The object reached as \<^verbatim>\<open>fig.scene\<close>: the viewer's scene, with the attributes the module
  writes. \<^verbatim>\<open>has_isometric_view\<close> is what \<^verbatim>\<open>hasattr(scene, 'isometric_view')\<close> answers.
\<close>

record tvtk_scene =
  background :: color
  foreground :: color
  disable_render :: bool
  has_isometric_view :: bool

text \<open>
  An object that can be handed to the module as a figure. One made by the engine has a
  name, a \<^verbatim>\<open>scene\<close> attribute (\<^verbatim>\<open>None\<close> when no viewer is attached) and a list of
  children; \<^verbatim>\<open>clf\<close> also expects objects that lack \<^verbatim>\<open>scene\<close> or \<^verbatim>\<open>children\<close>.
\<close>

record obj =
  name :: string
  scene :: "tvtk_scene option attr"
  children :: "nat list attr"

record engine =
  scenes :: "addr list"
  current_scene :: "addr option"

record options =
  background_color :: color
  foreground_color :: color

text \<open>
  Everything outside the module: the store of objects, the engines, the engine that
  \<^verbatim>\<open>get_engine()\<close> answers, the preferences object \<^verbatim>\<open>options\<close>, and the next unused
  reference (used only by the engine when it creates an object).
\<close>

record world =
  objects :: "addr \<Rightarrow> obj"
  engines :: "eid \<Rightarrow> engine"
  default_engine :: eid
  options :: options
  next_addr :: addr

datatype pyval = PyNone | PyBool bool | PyInt int | PyStr string

type_synonym kwargs = "(string \<times> pyval) list"

text \<open>The calls the module makes into the engine's interface, in the order it makes them.\<close>

datatype call =
    NewScene eid string pixels
  | IsometricView addr
  | View int int
  | Render addr
  | Save addr string "pixels option" kwargs
  | GcCollect

datatype exn = AttributeError | ValueError | EngineError

text \<open>
  The state of a run: the module's own variable \<^verbatim>\<open>__scene_number_list\<close> (a Python set of
  integers, hence finite), the calls made so far, and the world. Code of the engine sees
  the world only: the variable is private to the module.
\<close>

record state =
  scene_number_list :: "int fset"
  trace :: "call list"
  world :: world

datatype name_arg = NameNone | NameInt int | NameStr string

subsection \<open>Formatting \<^verbatim>\<open>'Mayavi Scene %d' % name\<close>\<close>

definition digit_char :: "nat \<Rightarrow> char" where
  "digit_char d = ''0123456789'' ! d"

fun digits :: "nat \<Rightarrow> string" where
  "digits n = (if n < 10 then [digit_char n] else digits (n div 10) @ [digit_char (n mod 10)])"

declare digits.simps [simp del]

definition format_d :: "int \<Rightarrow> string" where
  "format_d n = (if n < 0 then CHR ''-'' # digits (nat (- n)) else digits (nat n))"

definition scene_name :: "int \<Rightarrow> string" where
  "scene_name n = ''Mayavi Scene '' @ format_d n"

subsection \<open>The engine's interface\<close>

text \<open>
  Modelled from the spec: \<^verbatim>\<open>engine_manager.get_engine\<close> is not under src/. The spec calls
  the engine an externally supplied object; \<^verbatim>\<open>get_engine()\<close> answers the engine that is
  running and leaves the world as it is.
\<close>

definition get_engine :: "world \<Rightarrow> eid" where
  "get_engine w = default_engine w"

text \<open>
  \<^verbatim>\<open>engine.new_scene\<close> belongs to the engine and is not under src/: the functions below
  take it as the parameter \<open>ns\<close>. It gets the name, the size, the engine and the world, and
  answers an exception or none, and the world it leaves.
\<close>

type_synonym new_scene_fn = "string \<Rightarrow> pixels \<Rightarrow> eid \<Rightarrow> world \<Rightarrow> exn option \<times> world"

definition set_current_scene :: "eid \<Rightarrow> addr \<Rightarrow> world \<Rightarrow> world" where
  "set_current_scene e a w =
     w\<lparr>engines := (engines w)(e := (engines w e)\<lparr>current_scene := Some a\<rparr>)\<rparr>"

subsection \<open>figure\<close>

text \<open>
  Lines 53-54 and 69-70: \<^verbatim>\<open>engine.new_scene(name=name, size=size)\<close>, then
  \<^verbatim>\<open>engine.current_scene.name = name\<close>, which raises AttributeError when the engine has
  no current scene.
\<close>

definition new_named_scene ::
  "new_scene_fn \<Rightarrow> string \<Rightarrow> pixels \<Rightarrow> eid \<Rightarrow> state \<Rightarrow> exn option \<times> state" where
  "new_named_scene ns nm sz e st =
     (let st1 = st\<lparr>trace := trace st @ [NewScene e nm sz]\<rparr> in
      case ns nm sz e (world st1) of
        (Some x, w1) \<Rightarrow> (Some x, st1\<lparr>world := w1\<rparr>)
      | (None, w1) \<Rightarrow>
          (case current_scene (engines w1 e) of
             None \<Rightarrow> (Some AttributeError, st1\<lparr>world := w1\<rparr>)
           | Some a \<Rightarrow>
               (None, st1\<lparr>world := w1\<lparr>objects := (objects w1)(a := (objects w1 a)\<lparr>name := nm\<rparr>)\<rparr>\<rparr>)))"

text \<open>
  Lines 71-85: the colours and the first camera view of the engine's current scene.
  \<^verbatim>\<open>scene.isometric_view()\<close> and \<^verbatim>\<open>view(40, 50)\<close> are camera work of the engine, which
  the spec puts out of scope: the call is recorded.
\<close>

definition setup_scene ::
  "color option \<Rightarrow> color option \<Rightarrow> eid \<Rightarrow> state \<Rightarrow> (exn + addr) \<times> state" where
  "setup_scene bgcolor fgcolor e st =
     (let w = world st in
      case current_scene (engines w e) of
        None \<Rightarrow> (Inl AttributeError, st)
      | Some fig \<Rightarrow>
          (case scene (objects w fig) of
             Absent \<Rightarrow> (Inl AttributeError, st)
           | Present None \<Rightarrow> (Inr fig, st)
           | Present (Some sc) \<Rightarrow>
               (let bg = (case bgcolor of None \<Rightarrow> background_color (options w) | Some c \<Rightarrow> c);
                    sc1 = sc\<lparr>background := bg\<rparr>;
                    fg = (case fgcolor of None \<Rightarrow> foreground_color (options w) | Some c \<Rightarrow> c);
                    sc2 = sc1\<lparr>foreground := fg\<rparr>;
                    w2 = w\<lparr>objects := (objects w)(fig := (objects w fig)\<lparr>scene := Present (Some sc2)\<rparr>)\<rparr>;
                    c = (if has_isometric_view sc2 then IsometricView fig else View 40 50)
                in (Inr fig, st\<lparr>trace := trace st @ [c], world := w2\<rparr>))))"

text \<open>Lines 63-67: the first scene of \<^verbatim>\<open>engine.scenes\<close> whose name is the one looked for.\<close>

fun find_scene :: "(addr \<Rightarrow> obj) \<Rightarrow> string \<Rightarrow> addr list \<Rightarrow> addr option" where
  "find_scene h nm [] = None"
| "find_scene h nm (a # as) = (if name (h a) = nm then Some a else find_scene h nm as)"

text \<open>
  The creation path, lines 53-54 or 69-70 followed by lines 71-85: an exception of the
  first part ends the call.
\<close>

definition create_figure ::
  "new_scene_fn \<Rightarrow> string \<Rightarrow> color option \<Rightarrow> color option \<Rightarrow> eid \<Rightarrow> pixels \<Rightarrow>
   state \<Rightarrow> (exn + addr) \<times> state" where
  "create_figure ns nm bgcolor fgcolor e sz st =
     (case new_named_scene ns nm sz e st of
        (Some x, st2) \<Rightarrow> (Inl x, st2)
      | (None, st2) \<Rightarrow> setup_scene bgcolor fgcolor e st2)"

text \<open>
  Lines 61-85, with the name already a string: look the scene up, make it current and
  return it at once when it is there; otherwise create it and set it up.
\<close>

definition named_figure ::
  "new_scene_fn \<Rightarrow> string \<Rightarrow> color option \<Rightarrow> color option \<Rightarrow> eid \<Rightarrow> pixels \<Rightarrow>
   state \<Rightarrow> (exn + addr) \<times> state" where
  "named_figure ns nm bgcolor fgcolor e sz st =
     (case find_scene (objects (world st)) nm (scenes (engines (world st) e)) of
        Some a \<Rightarrow> (Inr a, st\<lparr>world := set_current_scene e a (world st)\<rparr>)
      | None \<Rightarrow> create_figure ns nm bgcolor fgcolor e sz st)"

text \<open>
  \<^verbatim>\<open>max\<close> of an empty set raises ValueError. The set starts as \<open>{0}\<close> and nothing removes
  from it, so this is never met in a run that starts from \<open>initial_numbers\<close>.
\<close>

definition initial_numbers :: "int fset" where
  "initial_numbers = {|0|}"

definition figure ::
  "new_scene_fn \<Rightarrow> name_arg \<Rightarrow> color option \<Rightarrow> color option \<Rightarrow> eid option \<Rightarrow> pixels \<Rightarrow>
   state \<Rightarrow> (exn + addr) \<times> state" where
  "figure ns nm bgcolor fgcolor engine sz st =
     (let e = (case engine of None \<Rightarrow> get_engine (world st) | Some e' \<Rightarrow> e') in
      case nm of
        NameNone \<Rightarrow>
          if scene_number_list st = {||} then (Inl ValueError, st)
          else
            (let n = fMax (scene_number_list st) + 1;
                 st1 = st\<lparr>scene_number_list := finsert n (scene_number_list st)\<rparr>
             in create_figure ns (scene_name n) bgcolor fgcolor e sz st1)
      | NameInt k \<Rightarrow>
          named_figure ns (scene_name k) bgcolor fgcolor e sz
            (st\<lparr>scene_number_list := finsert k (scene_number_list st)\<rparr>)
      | NameStr s \<Rightarrow> named_figure ns s bgcolor fgcolor e sz st)"

subsection \<open>gcf, clf, draw, savefig\<close>

definition gcf :: "new_scene_fn \<Rightarrow> eid option \<Rightarrow> state \<Rightarrow> (exn + addr) \<times> state" where
  "gcf ns engine st =
     (let e = (case engine of None \<Rightarrow> get_engine (world st) | Some e' \<Rightarrow> e') in
      case current_scene (engines (world st) e) of
        None \<Rightarrow> figure ns NameNone None None (Some e) (400, 350) st
      | Some a \<Rightarrow> (Inr a, st))"

text \<open>
  Lines 112-114 of \<^verbatim>\<open>clf\<close>. Writing \<^verbatim>\<open>disable_render\<close> needs \<^verbatim>\<open>scene.scene\<close> to be there and
  not \<^verbatim>\<open>None\<close>; \<^verbatim>\<open>scene.children[:] = []\<close> needs \<^verbatim>\<open>children\<close>. Each failure is an
  AttributeError raised where the sequence stands, the writes before it being done.
\<close>

definition clear_sequence :: "addr \<Rightarrow> world \<Rightarrow> exn option \<times> world" where
  "clear_sequence a w =
     (case scene (objects w a) of
        Absent \<Rightarrow> (Some AttributeError, w)
      | Present None \<Rightarrow> (Some AttributeError, w)
      | Present (Some sc) \<Rightarrow>
          (let w1 = w\<lparr>objects := (objects w)
                      (a := (objects w a)\<lparr>scene := Present (Some (sc\<lparr>disable_render := True\<rparr>))\<rparr>)\<rparr>
           in case children (objects w1 a) of
                Absent \<Rightarrow> (Some AttributeError, w1)
              | Present cs \<Rightarrow>
                  (None, w1\<lparr>objects := (objects w1)
                           (a := (objects w1 a)\<lparr>scene := Present (Some (sc\<lparr>disable_render := False\<rparr>)),
                                                children := Present []\<rparr>)\<rparr>)))"

text \<open>
  The opening of \<^verbatim>\<open>clf\<close>, \<^verbatim>\<open>draw\<close> and \<^verbatim>\<open>savefig\<close>: the figure given, or \<^verbatim>\<open>gcf()\<close> when
  it is \<^verbatim>\<open>None\<close>.
\<close>

definition target_figure :: "new_scene_fn \<Rightarrow> addr option \<Rightarrow> state \<Rightarrow> (exn + addr) \<times> state" where
  "target_figure ns figure_arg st =
     (case figure_arg of None \<Rightarrow> gcf ns None st | Some f \<Rightarrow> (Inr f, st))"

text \<open>
  \<^verbatim>\<open>clf\<close>: the body of the \<^verbatim>\<open>try\<close> is the target and the clear sequence; an
  AttributeError of either is dropped, any other exception leaves the function, and
  \<^verbatim>\<open>gc.collect()\<close> runs when none does.
\<close>

definition clf :: "new_scene_fn \<Rightarrow> addr option \<Rightarrow> state \<Rightarrow> (exn + unit) \<times> state" where
  "clf ns figure_arg st =
     (let (r, st1) = target_figure ns figure_arg st;
          (x, st2) = (case r of
                        Inl x' \<Rightarrow> (Some x', st1)
                      | Inr a \<Rightarrow> (case clear_sequence a (world st1) of
                                    (x', w) \<Rightarrow> (x', st1\<lparr>world := w\<rparr>)))
      in case x of
           None \<Rightarrow> (Inr (), st2\<lparr>trace := trace st2 @ [GcCollect]\<rparr>)
         | Some AttributeError \<Rightarrow> (Inr (), st2\<lparr>trace := trace st2 @ [GcCollect]\<rparr>)
         | Some y \<Rightarrow> (Inl y, st2))"

definition draw :: "new_scene_fn \<Rightarrow> addr option \<Rightarrow> state \<Rightarrow> (exn + unit) \<times> state" where
  "draw ns figure_arg st =
     (case target_figure ns figure_arg st of
        (Inl x, st1) \<Rightarrow> (Inl x, st1)
      | (Inr a, st1) \<Rightarrow> (Inr (), st1\<lparr>trace := trace st1 @ [Render a]\<rparr>))"

text \<open>
  \<^verbatim>\<open>savefig\<close>: \<^verbatim>\<open>figure.scene.save(filename, size=size, **kwargs)\<close> needs \<^verbatim>\<open>figure.scene\<close>
  to be there and not \<^verbatim>\<open>None\<close>; the call is recorded with its arguments.
\<close>

definition savefig ::
  "new_scene_fn \<Rightarrow> string \<Rightarrow> pixels option \<Rightarrow> addr option \<Rightarrow> kwargs \<Rightarrow> state \<Rightarrow>
   (exn + unit) \<times> state" where
  "savefig ns filename sz figure_arg kw st =
     (case target_figure ns figure_arg st of
        (Inl x, st1) \<Rightarrow> (Inl x, st1)
      | (Inr a, st1) \<Rightarrow>
          (case scene (objects (world st1) a) of
             Absent \<Rightarrow> (Inl AttributeError, st1)
           | Present None \<Rightarrow> (Inl AttributeError, st1)
           | Present (Some sc) \<Rightarrow> (Inr (), st1\<lparr>trace := trace st1 @ [Save a filename sz kw]\<rparr>)))"

subsection \<open>An engine to run the module on\<close>

text \<open>
  Modelled from the spec: \<^verbatim>\<open>Engine.new_scene\<close> is not under src/. The spec lists scene
  creation and the current-scene accessor as the engine's interface: the engine makes a new
  object with the given name, the viewer's scene \<open>viewer\<close> (or none) and no children, adds
  it to its scenes and makes it current. It is used to run the functions on concrete
  inputs; the theorems hold for every \<open>ns\<close>.
\<close>

definition engine_new_scene :: "tvtk_scene option \<Rightarrow> new_scene_fn" where
  "engine_new_scene viewer nm sz e w =
     (let a = next_addr w;
          ob = \<lparr>name = nm, scene = Present viewer, children = Present []\<rparr>
      in (None, w\<lparr>objects := (objects w)(a := ob),
                  engines := (engines w)
                    (e := \<lparr>scenes = scenes (engines w e) @ [a], current_scene = Some a\<rparr>),
                  next_addr := Suc a\<rparr>))"

definition white :: color where "white = (1, 1, 1)"
definition black :: color where "black = (0, 0, 0)"
definition grey :: color where "grey = (1/2, 1/2, 1/2)"

definition viewer0 :: tvtk_scene where
  "viewer0 = \<lparr>background = grey, foreground = grey, disable_render = False,
              has_isometric_view = True\<rparr>"

definition no_object :: obj where
  "no_object = \<lparr>name = [], scene = Absent, children = Absent\<rparr>"

definition world0 :: world where
  "world0 = \<lparr>objects = (\<lambda>_. no_object),
             engines = (\<lambda>_. \<lparr>scenes = [], current_scene = None\<rparr>),
             default_engine = 0,
             options = \<lparr>background_color = black, foreground_color = white\<rparr>,
             next_addr = 0\<rparr>"

text \<open>The state when the module has just been imported and the engine holds no scene.\<close>

definition state0 :: state where
  "state0 = \<lparr>scene_number_list = initial_numbers, trace = [], world = world0\<rparr>"

subsection \<open>Sequences of calls to figure\<close>

type_synonym figure_args = "name_arg \<times> color option \<times> color option \<times> eid option \<times> pixels"

fun figure_call :: "new_scene_fn \<Rightarrow> figure_args \<Rightarrow> state \<Rightarrow> (exn + addr) \<times> state" where
  "figure_call ns (nm, bgcolor, fgcolor, engine, sz) st = figure ns nm bgcolor fgcolor engine sz st"

fun new_scene_names :: "call list \<Rightarrow> string list" where
  "new_scene_names [] = []"
| "new_scene_names (NewScene e nm sz # cs) = nm # new_scene_names cs"
| "new_scene_names (c # cs) = new_scene_names cs"

text \<open>
  What a run of calls shows of the automatic naming: for each call with \<^verbatim>\<open>name=None\<close>, the
  numbers the call put into the set, and the names it handed to \<^verbatim>\<open>new_scene\<close>.
\<close>

fun auto_numbers :: "new_scene_fn \<Rightarrow> figure_args list \<Rightarrow> state \<Rightarrow> int list" where
  "auto_numbers ns [] st = []"
| "auto_numbers ns (c # cs) st =
     (let st' = snd (figure_call ns c st)
      in (if fst c = NameNone
          then sorted_list_of_fset (scene_number_list st' |-| scene_number_list st) else [])
         @ auto_numbers ns cs st')"

fun auto_names :: "new_scene_fn \<Rightarrow> figure_args list \<Rightarrow> state \<Rightarrow> string list" where
  "auto_names ns [] st = []"
| "auto_names ns (c # cs) st =
     (let st' = snd (figure_call ns c st)
      in (if fst c = NameNone
          then new_scene_names (drop (length (trace st)) (trace st')) else [])
         @ auto_names ns cs st')"

text \<open>The calls of \<^verbatim>\<open>figure.scene.save\<close> among the calls made.\<close>

fun save_calls :: "call list \<Rightarrow> call list" where
  "save_calls [] = []"
| "save_calls (Save a f sz kw # cs) = Save a f sz kw # save_calls cs"
| "save_calls (c # cs) = save_calls cs"

subsection \<open>Concrete inputs\<close>

definition ns0 :: new_scene_fn where
  "ns0 = engine_new_scene (Some viewer0)"

definition calls0 :: "figure_args list" where
  "calls0 = [(NameNone, None, None, None, (400, 350)),
             (NameInt 5, None, None, None, (400, 350)),
             (NameNone, None, None, None, (400, 350))]"

text \<open>An engine whose \<^verbatim>\<open>new_scene\<close> raises the exception \<open>x\<close> and changes nothing.\<close>

definition ns_raises :: "exn \<Rightarrow> new_scene_fn" where
  "ns_raises x nm sz e w = (Some x, w)"

text \<open>
  An engine with three scenes, two of them named \<open>x\<close>, the second of which has no viewer
  attached; object 3 is a viewer-like object, with a scene and without children.
\<close>

definition world1 :: world where
  "world1 = \<lparr>objects = (\<lambda>_. no_object)
               (0 := \<lparr>name = ''Mayavi Scene 1'', scene = Present (Some viewer0),
                      children = Present [10, 11]\<rparr>,
                1 := \<lparr>name = ''x'', scene = Present (Some viewer0), children = Present [12]\<rparr>,
                2 := \<lparr>name = ''x'', scene = Present None, children = Present []\<rparr>,
                3 := \<lparr>name = ''viewer'', scene = Present (Some viewer0), children = Absent\<rparr>),
             engines = (\<lambda>_. \<lparr>scenes = [], current_scene = None\<rparr>)
               (0 := \<lparr>scenes = [0, 1, 2], current_scene = Some 0\<rparr>),
             default_engine = 0,
             options = \<lparr>background_color = black, foreground_color = white\<rparr>,
             next_addr = 4\<rparr>"

definition state1 :: state where
  "state1 = \<lparr>scene_number_list = {|1, 0|}, trace = [], world = world1\<rparr>"

section \<open>Properties\<close>

subsection \<open>Decimal formatting is injective\<close>

lemma digit_char_inj: "d < 10 \<Longrightarrow> d' < 10 \<Longrightarrow> digit_char d = digit_char d' \<Longrightarrow> d = d'"
proof -
  assume a: "d < 10" "d' < 10" "digit_char d = digit_char d'"
  have D: "distinct ''0123456789''" by simp
  have L: "length ''0123456789'' = 10" by simp
  from a show ?thesis
    unfolding digit_char_def using D L by (metis nth_eq_iff_index_eq)
qed

lemma digit_char_not_minus: "d < 10 \<Longrightarrow> digit_char d \<noteq> CHR ''-''"
proof -
  assume a: "d < 10"
  have "digit_char d \<in> set ''0123456789''"
    unfolding digit_char_def using a by (intro nth_mem) simp
  then show ?thesis by auto
qed

lemma digits_nonempty: "digits n \<noteq> []"
  by (subst digits.simps) simp

lemma hd_digits: "hd (digits n) \<noteq> CHR ''-''"
proof (induction n rule: digits.induct)
  case (1 n)
  show ?case
  proof (cases "n < 10")
    case True
    then show ?thesis by (subst digits.simps) (simp add: digit_char_not_minus)
  next
    case False
    with 1 show ?thesis by (subst digits.simps) (simp add: digits_nonempty)
  qed
qed

lemma digits_inj: "digits n = digits m \<Longrightarrow> n = m"
proof (induction n arbitrary: m rule: digits.induct)
  case (1 n)
  show ?case
  proof (cases "n < 10")
    case True
    have dn: "digits n = [digit_char n]" using True by (subst digits.simps) simp
    show ?thesis
    proof (cases "m < 10")
      case m: True
      then have "digits m = [digit_char m]" by (subst digits.simps) simp
      with dn "1.prems" True m show ?thesis by (simp add: digit_char_inj)
    next
      case m: False
      then have "digits m = digits (m div 10) @ [digit_char (m mod 10)]"
        by (subst digits.simps) simp
      with dn "1.prems" have "digits (m div 10) = []" by simp
      then show ?thesis by (simp add: digits_nonempty)
    qed
  next
    case False
    have dn: "digits n = digits (n div 10) @ [digit_char (n mod 10)]"
      using False by (subst digits.simps) simp
    show ?thesis
    proof (cases "m < 10")
      case m: True
      then have "digits m = [digit_char m]" by (subst digits.simps) simp
      with dn "1.prems" have "digits (n div 10) = []" by simp
      then show ?thesis by (simp add: digits_nonempty)
    next
      case m: False
      then have "digits m = digits (m div 10) @ [digit_char (m mod 10)]"
        by (subst digits.simps) simp
      with dn "1.prems" have e: "digits (n div 10) = digits (m div 10)"
        and c: "digit_char (n mod 10) = digit_char (m mod 10)" by simp_all
      from "1.IH" [OF False e] have d: "n div 10 = m div 10" .
      from c have r: "n mod 10 = m mod 10" by (intro digit_char_inj) simp_all
      from d r show ?thesis by (metis div_mult_mod_eq)
    qed
  qed
qed

lemma format_d_inj: "format_d a = format_d b \<Longrightarrow> a = b"
proof -
  assume e: "format_d a = format_d b"
  have neg: "\<And>x y. CHR ''-'' # digits x \<noteq> digits y"
    using hd_digits digits_nonempty by (metis list.sel(1))
  show ?thesis
  proof (cases "a < 0"; cases "b < 0")
    assume "a < 0" "b < 0"
    with e have "nat (- a) = nat (- b)" by (simp add: format_d_def digits_inj)
    with \<open>a < 0\<close> \<open>b < 0\<close> show ?thesis by simp
  next
    assume "a < 0" "\<not> b < 0"
    with e neg show ?thesis by (simp add: format_d_def)
  next
    assume "\<not> a < 0" "b < 0"
    with e neg [of "nat (- b)" "nat a"] show ?thesis by (simp add: format_d_def)
  next
    assume "\<not> a < 0" "\<not> b < 0"
    with e have "nat a = nat b" by (simp add: format_d_def digits_inj)
    with \<open>\<not> a < 0\<close> \<open>\<not> b < 0\<close> show ?thesis by simp
  qed
qed

lemma scene_name_inj: "inj scene_name"
  by (rule injI) (simp add: scene_name_def format_d_inj)


subsection \<open>What figure does to the scene numbers and to the trace\<close>

lemma new_named_scene_numbers:
  "scene_number_list (snd (new_named_scene ns nm sz e st)) = scene_number_list st"
  by (simp add: new_named_scene_def Let_def split: prod.splits option.splits)

lemma new_named_scene_trace:
  "trace (snd (new_named_scene ns nm sz e st)) = trace st @ [NewScene e nm sz]"
  by (simp add: new_named_scene_def Let_def split: prod.splits option.splits)

lemma setup_scene_numbers:
  "scene_number_list (snd (setup_scene bg fg e st)) = scene_number_list st"
  by (simp add: setup_scene_def Let_def split: option.splits attr.splits)

lemma setup_scene_trace:
  "\<exists>cs. trace (snd (setup_scene bg fg e st)) = trace st @ cs \<and> new_scene_names cs = []"
  by (simp add: setup_scene_def Let_def split: option.splits attr.splits)

lemma create_numbers:
  "scene_number_list (snd (create_figure ns nm bg fg e sz st)) = scene_number_list st"
proof (cases "new_named_scene ns nm sz e st")
  case (Pair r st2)
  have "scene_number_list st2 = scene_number_list st"
    using new_named_scene_numbers [of ns nm sz e st] Pair by simp
  with Pair show ?thesis
    by (cases r) (simp_all add: create_figure_def setup_scene_numbers)
qed

lemma new_scene_names_append:
  "new_scene_names (xs @ ys) = new_scene_names xs @ new_scene_names ys"
  by (induction xs rule: new_scene_names.induct) simp_all

lemma create_trace:
  "\<exists>cs. trace (snd (create_figure ns nm bg fg e sz st)) = trace st @ NewScene e nm sz # cs
     \<and> new_scene_names cs = []"
proof (cases "new_named_scene ns nm sz e st")
  case (Pair r st2)
  have t: "trace st2 = trace st @ [NewScene e nm sz]"
    using new_named_scene_trace [of ns nm sz e st] Pair by simp
  show ?thesis
  proof (cases r)
    case None
    obtain cs where "trace (snd (setup_scene bg fg e st2)) = trace st2 @ cs"
      and "new_scene_names cs = []"
      using setup_scene_trace by blast
    with Pair None t show ?thesis by (simp add: create_figure_def)
  next
    case (Some x)
    with Pair t show ?thesis by (simp add: create_figure_def)
  qed
qed

lemma named_figure_numbers:
  "scene_number_list (snd (named_figure ns nm bg fg e sz st)) = scene_number_list st"
  unfolding named_figure_def
  by (cases "find_scene (objects (world st)) nm (scenes (engines (world st) e))")
     (simp_all add: create_numbers)

lemma figure_numbers:
  "scene_number_list (snd (figure ns nm bg fg eng sz st)) =
     (case nm of
        NameNone \<Rightarrow> if scene_number_list st = {||} then {||}
                    else finsert (fMax (scene_number_list st) + 1) (scene_number_list st)
      | NameInt k \<Rightarrow> finsert k (scene_number_list st)
      | NameStr s \<Rightarrow> scene_number_list st)"
  by (cases nm) (simp_all add: figure_def Let_def named_figure_numbers create_numbers)

lemma figure_auto:
  "scene_number_list st \<noteq> {||} \<Longrightarrow>
   figure ns NameNone bg fg eng sz st =
     create_figure ns (scene_name (fMax (scene_number_list st) + 1)) bg fg
       (case eng of None \<Rightarrow> get_engine (world st) | Some e \<Rightarrow> e) sz
       (st\<lparr>scene_number_list := finsert (fMax (scene_number_list st) + 1) (scene_number_list st)\<rparr>)"
  by (simp add: figure_def Let_def)

lemma figure_auto_trace:
  assumes "scene_number_list st \<noteq> {||}"
  shows "\<exists>cs. trace (snd (figure ns NameNone bg fg eng sz st)) =
           trace st @ NewScene (case eng of None \<Rightarrow> get_engine (world st) | Some e \<Rightarrow> e)
                        (scene_name (fMax (scene_number_list st) + 1)) sz # cs
         \<and> new_scene_names cs = []"
  unfolding figure_auto [OF assms]
  using create_trace [where st = "st\<lparr>scene_number_list := finsert (fMax (scene_number_list st) + 1) (scene_number_list st)\<rparr>"]
  by simp

lemma fMax_plus_fresh: "fMax S + (1::int) |\<notin>| S"
proof
  assume "fMax S + 1 |\<in>| S"
  then have "fMax S + 1 \<le> fMax S" by (rule fMax_ge)
  then show False by simp
qed

lemma setup_scene_result:
  assumes "setup_scene bg fg e st = (Inr a, st')"
  shows "current_scene (engines (world st') e) = Some a
       \<and> current_scene (engines (world st) e) = Some a
       \<and> name (objects (world st') a) = name (objects (world st) a)
       \<and> engines (world st') = engines (world st)
       \<and> options (world st') = options (world st)"
  using assms
  by (auto simp: setup_scene_def Let_def split: option.splits attr.splits)

lemma new_named_scene_result:
  assumes "new_named_scene ns nm sz e st = (None, st')"
  shows "\<exists>a. current_scene (engines (world st') e) = Some a \<and> name (objects (world st') a) = nm"
  using assms
  by (auto simp: new_named_scene_def Let_def split: prod.splits option.splits)

lemma create_figure_result:
  assumes "create_figure ns nm bg fg e sz st = (Inr a, st')"
  shows "current_scene (engines (world st') e) = Some a \<and> name (objects (world st') a) = nm"
proof (cases "new_named_scene ns nm sz e st")
  case (Pair r st2)
  show ?thesis
  proof (cases r)
    case None
    with Pair assms have s: "setup_scene bg fg e st2 = (Inr a, st')"
      by (simp add: create_figure_def)
    from Pair None obtain b where b: "current_scene (engines (world st2) e) = Some b"
      "name (objects (world st2) b) = nm"
      using new_named_scene_result by blast
    from setup_scene_result [OF s] b show ?thesis by simp
  next
    case (Some x)
    with Pair assms show ?thesis by (simp add: create_figure_def)
  qed
qed

lemma auto_step_numbers:
  "sorted_list_of_fset
     (scene_number_list (snd (figure ns NameNone bg fg eng sz st)) |-| scene_number_list st) =
   (if scene_number_list st = {||} then [] else [fMax (scene_number_list st) + 1])"
proof (cases "scene_number_list st = {||}")
  case True
  then show ?thesis by (simp add: figure_numbers sorted_list_of_fset.rep_eq)
next
  case False
  let ?S = "scene_number_list st"
  have "finsert (fMax ?S + 1) ?S |-| ?S = {|fMax ?S + 1|}"
    using fMax_plus_fresh [of ?S] by auto
  with False show ?thesis by (simp add: figure_numbers sorted_list_of_fset.rep_eq)
qed

lemma auto_step_names:
  "new_scene_names (drop (length (trace st)) (trace (snd (figure ns NameNone bg fg eng sz st)))) =
   (if scene_number_list st = {||} then [] else [scene_name (fMax (scene_number_list st) + 1)])"
proof (cases "scene_number_list st = {||}")
  case True
  then show ?thesis by (simp add: figure_def Let_def)
next
  case False
  from figure_auto_trace [OF False, of ns bg fg eng sz]
  obtain cs where "trace (snd (figure ns NameNone bg fg eng sz st)) =
           trace st @ NewScene (case eng of None \<Rightarrow> get_engine (world st) | Some e \<Rightarrow> e)
                        (scene_name (fMax (scene_number_list st) + 1)) sz # cs"
    and "new_scene_names cs = []" by blast
  with False show ?thesis by simp
qed

lemma figure_numbers_mono:
  "m |\<in>| scene_number_list st \<Longrightarrow> m |\<in>| scene_number_list (snd (figure ns nm bg fg eng sz st))"
  by (cases nm) (auto simp: figure_numbers)

lemma auto_numbers_above:
  "(\<forall>n \<in> set (auto_numbers ns cs st). \<forall>m. m |\<in>| scene_number_list st \<longrightarrow> m < n)
   \<and> sorted_wrt (<) (auto_numbers ns cs st)"
proof (induction cs arbitrary: st)
  case Nil
  show ?case by simp
next
  case (Cons c cs)
  obtain nm bg fg eng sz where c: "c = (nm, bg, fg, eng, sz)" by (cases c) auto
  let ?st' = "snd (figure ns nm bg fg eng sz st)"
  let ?S = "scene_number_list st"
  have tl_above: "\<forall>n \<in> set (auto_numbers ns cs ?st'). \<forall>m. m |\<in>| scene_number_list ?st' \<longrightarrow> m < n"
    and tl_sorted: "sorted_wrt (<) (auto_numbers ns cs ?st')"
    using Cons.IH [of ?st'] by blast+
  have tl_above_old: "\<forall>n \<in> set (auto_numbers ns cs ?st'). \<forall>m. m |\<in>| ?S \<longrightarrow> m < n"
    using tl_above figure_numbers_mono by blast
  show ?case
  proof (cases "nm = NameNone \<and> ?S \<noteq> {||}")
    case True
    let ?n = "fMax ?S + 1"
    have eq: "auto_numbers ns (c # cs) st = ?n # auto_numbers ns cs ?st'"
      using True c by (simp add: auto_step_numbers Let_def)
    have "?n |\<in>| scene_number_list ?st'"
      using True by (simp add: figure_numbers)
    with tl_above have gt: "\<forall>k \<in> set (auto_numbers ns cs ?st'). ?n < k" by blast
    have hd_above: "\<forall>m. m |\<in>| ?S \<longrightarrow> m < ?n"
    proof (intro allI impI)
      fix m assume "m |\<in>| ?S"
      then have "m \<le> fMax ?S" by (rule fMax_ge)
      then show "m < ?n" by simp
    qed
    show ?thesis
      unfolding eq using gt hd_above tl_above_old tl_sorted by simp
  next
    case False
    have "(if nm = NameNone
           then sorted_list_of_fset (scene_number_list ?st' |-| ?S) else []) = []"
      using False auto_step_numbers [of ns bg fg eng sz st] by (cases "nm = NameNone") simp_all
    then have eq: "auto_numbers ns (c # cs) st = auto_numbers ns cs ?st'"
      using c by (simp add: Let_def)
    show ?thesis
      unfolding eq using tl_above_old tl_sorted by simp
  qed
qed

lemma auto_names_numbers:
  "auto_names ns cs st = map scene_name (auto_numbers ns cs st)"
proof (induction cs arbitrary: st)
  case Nil
  show ?case by simp
next
  case (Cons c cs)
  obtain nm bg fg eng sz where c: "c = (nm, bg, fg, eng, sz)" by (cases c) auto
  show ?case
    using Cons.IH [of "snd (figure ns nm bg fg eng sz st)"] c
    by (simp add: auto_step_numbers auto_step_names Let_def)
qed

lemma figure_nonempty:
  "scene_number_list st \<noteq> {||} \<Longrightarrow> scene_number_list (snd (figure ns nm bg fg eng sz st)) \<noteq> {||}"
  by (cases nm) (simp_all add: figure_numbers)

lemma auto_numbers_length:
  "scene_number_list st \<noteq> {||} \<Longrightarrow>
   length (auto_numbers ns cs st) = length (filter (\<lambda>c. fst c = NameNone) cs)"
proof (induction cs arbitrary: st)
  case Nil
  show ?case by simp
next
  case (Cons c cs)
  obtain nm bg fg eng sz where c: "c = (nm, bg, fg, eng, sz)" by (cases c) auto
  have "length (auto_numbers ns cs (snd (figure ns nm bg fg eng sz st))) =
        length (filter (\<lambda>c. fst c = NameNone) cs)"
    using Cons.IH [OF figure_nonempty [OF Cons.prems]] .
  then show ?case
    using c Cons.prems by (simp add: Let_def auto_step_numbers)
qed

subsection \<open>Automatic scene names\<close>

text \<open>
  C1. In every sequence of calls to \<^verbatim>\<open>figure\<close>, with explicit names interleaved at will,
  the numbers given by the calls with \<^verbatim>\<open>name=None\<close> are strictly increasing, the names
  handed to the engine by these calls are \<open>'Mayavi Scene %d'\<close> of these numbers and are
  pairwise distinct. When the set of scene numbers is not empty (it never is in a run:
  it starts as \<open>{0}\<close> and only grows), every such call gives a number, the number is
  one plus the maximum of the set at that time, it is added to the set, and the figure
  returned bears the name made from it.
\<close>

theorem auto_scene_names_increasing:
  "sorted_wrt (<) (auto_numbers ns cs st)
   \<and> auto_names ns cs st = map scene_name (auto_numbers ns cs st)
   \<and> distinct (auto_names ns cs st)
   \<and> (scene_number_list st \<noteq> {||} \<longrightarrow>
        length (auto_numbers ns cs st) = length (filter (\<lambda>c. fst c = NameNone) cs)
      \<and> auto_numbers ns ((NameNone, bg, fg, eng, sz) # cs) st =
          (fMax (scene_number_list st) + 1)
            # auto_numbers ns cs (snd (figure ns NameNone bg fg eng sz st))
      \<and> scene_number_list (snd (figure ns NameNone bg fg eng sz st)) =
          finsert (fMax (scene_number_list st) + 1) (scene_number_list st)
      \<and> (\<forall>a st'. figure ns NameNone bg fg eng sz st = (Inr a, st') \<longrightarrow>
            name (objects (world st') a) = scene_name (fMax (scene_number_list st) + 1)))"
proof -
  have s: "sorted_wrt (<) (auto_numbers ns cs st)"
    using auto_numbers_above by blast
  then have "distinct (auto_numbers ns cs st)"
    by (simp add: strict_sorted_iff)
  then have d: "distinct (auto_names ns cs st)"
    unfolding auto_names_numbers using scene_name_inj
    by (simp add: distinct_map inj_on_def inj_def)
  have r: "name (objects (world st') a) = scene_name (fMax (scene_number_list st) + 1)"
    if "scene_number_list st \<noteq> {||}" "figure ns NameNone bg fg eng sz st = (Inr a, st')"
    for a st'
    using that create_figure_result unfolding figure_auto [OF that(1)] by blast
  have h: "auto_numbers ns ((NameNone, bg, fg, eng, sz) # cs) st =
          (fMax (scene_number_list st) + 1)
            # auto_numbers ns cs (snd (figure ns NameNone bg fg eng sz st))"
    if "scene_number_list st \<noteq> {||}"
    using that by (simp add: Let_def auto_step_numbers)
  have f: "scene_number_list (snd (figure ns NameNone bg fg eng sz st)) =
          finsert (fMax (scene_number_list st) + 1) (scene_number_list st)"
    if "scene_number_list st \<noteq> {||}"
    using that by (simp add: figure_numbers)
  show ?thesis
    using s d r h f auto_numbers_length [of st ns cs] auto_names_numbers [of ns cs st]
    by blast
qed

theorem auto_scene_names_increasing_witness:
  "scene_number_list state0 \<noteq> {||}
   \<and> length (auto_numbers ns0 calls0 state0) = 2
   \<and> sorted_wrt (<) (auto_numbers ns0 calls0 state0)
   \<and> distinct (auto_names ns0 calls0 state0)
   \<and> scene_number_list (snd (figure ns0 NameNone None None None (400, 350) state0)) = {|1, 0|}"
proof -
  have h: "scene_number_list state0 \<noteq> {||}"
    by (simp add: state0_def initial_numbers_def)
  have c: "length (filter (\<lambda>c. fst c = NameNone) calls0) = 2"
    by (simp add: calls0_def)
  have m: "finsert (fMax (scene_number_list state0) + 1) (scene_number_list state0) = {|1, 0|}"
    by (simp add: state0_def initial_numbers_def)
  show ?thesis
    using h c m auto_scene_names_increasing [of ns0 calls0 state0 None None None "(400, 350)"]
    by metis
qed

subsection \<open>Runs on concrete inputs\<close>

text \<open>
  The definitions to unfold when a function is run on a concrete state.
\<close>

lemmas run_defs = figure_def named_figure_def create_figure_def new_named_scene_def
  setup_scene_def gcf_def target_figure_def clf_def clear_sequence_def draw_def savefig_def set_current_scene_def
  get_engine_def engine_new_scene_def ns_raises_def ns0_def state0_def world0_def state1_def world1_def
  initial_numbers_def viewer0_def no_object_def white_def black_def grey_def Let_def

lemma run_retrieve: "fst (figure ns0 (NameStr ''x'') None None None (400, 350) state1) = Inr 1"
  by (simp add: run_defs)

lemma run_retrieve_int: "fst (figure ns0 (NameInt 1) None None None (400, 350) state1) = Inr 0"
  by (simp add: run_defs scene_name_def format_d_def digits.simps digit_char_def)

lemma run_auto_numbers: "auto_numbers ns0 calls0 state0 = [1, 6]"
  by (simp add: calls0_def run_defs sorted_list_of_fset.rep_eq insert_Diff_if)

lemma run_auto_names:
  "auto_names ns0 calls0 state0 = [''Mayavi Scene 1'', ''Mayavi Scene 6'']"
  by (simp add: calls0_def run_defs scene_name_def format_d_def digits.simps digit_char_def)

lemma run_named_creation:
  "fst (figure ns0 (NameInt 7) None None None (400, 350) state1) = Inr 4
   \<and> scene_number_list (snd (figure ns0 (NameInt 7) None None None (400, 350) state1)) = {|7, 1, 0|}
   \<and> name (objects (world (snd (figure ns0 (NameInt 7) None None None (400, 350) state1))) 4)
       = ''Mayavi Scene 7''
   \<and> trace (snd (figure ns0 (NameInt 7) None None None (400, 350) state1))
       = [NewScene 0 ''Mayavi Scene 7'' (400, 350), IsometricView 4]"
  by (simp add: run_defs scene_name_def format_d_def digits.simps digit_char_def)

lemma run_clf_default:
  "clf ns0 None state1 =
     (Inr (), state1\<lparr>trace := [GcCollect],
        world := world1\<lparr>objects := (objects world1)
          (0 := \<lparr>name = ''Mayavi Scene 1'', scene = Present (Some viewer0), children = Present []\<rparr>)\<rparr>\<rparr>)"
  by (simp add: run_defs)

subsection \<open>Retrieving a scene by name\<close>

lemma find_scene_first:
  "\<exists>a \<in> set scs. name (h a) = nm \<Longrightarrow>
   \<exists>pre a post. scs = pre @ a # post \<and> (\<forall>b \<in> set pre. name (h b) \<noteq> nm) \<and> name (h a) = nm
     \<and> find_scene h nm scs = Some a"
proof (induction scs)
  case Nil
  then show ?case by simp
next
  case (Cons x xs)
  show ?case
  proof (cases "name (h x) = nm")
    case True
    then have "x # xs = [] @ x # xs \<and> (\<forall>b \<in> set []. name (h b) \<noteq> nm) \<and> name (h x) = nm
        \<and> find_scene h nm (x # xs) = Some x" by simp
    then show ?thesis by blast
  next
    case False
    with Cons.prems have "\<exists>a \<in> set xs. name (h a) = nm" by auto
    from Cons.IH [OF this] obtain pre a post where
      p: "xs = pre @ a # post" "\<forall>b \<in> set pre. name (h b) \<noteq> nm" "name (h a) = nm"
         "find_scene h nm xs = Some a" by blast
    from p False have "x # xs = (x # pre) @ a # post \<and> (\<forall>b \<in> set (x # pre). name (h b) \<noteq> nm)
        \<and> name (h a) = nm \<and> find_scene h nm (x # xs) = Some a" by simp
    then show ?thesis by blast
  qed
qed

lemma find_scene_None:
  "find_scene h nm scs = None \<longleftrightarrow> (\<forall>a \<in> set scs. name (h a) \<noteq> nm)"
  by (induction scs) auto

lemma named_figure_found:
  "find_scene (objects (world st)) nm (scenes (engines (world st) e)) = Some a \<Longrightarrow>
   named_figure ns nm bg fg e sz st = (Inr a, st\<lparr>world := set_current_scene e a (world st)\<rparr>)"
  by (simp add: named_figure_def)

lemma set_current_scene_current:
  "current_scene (engines (set_current_scene e a w) e) = Some a"
  by (simp add: set_current_scene_def)

lemma named_figure_result:
  assumes "fst (named_figure ns nm bg fg e sz st) = Inr a"
  shows "current_scene (engines (world (snd (named_figure ns nm bg fg e sz st))) e) = Some a"
proof (cases "find_scene (objects (world st)) nm (scenes (engines (world st) e))")
  case None
  with assms have "create_figure ns nm bg fg e sz st = (Inr a, snd (create_figure ns nm bg fg e sz st))"
    by (simp add: named_figure_def prod_eq_iff)
  from create_figure_result [OF this] None show ?thesis by (simp add: named_figure_def)
next
  case (Some b)
  with assms show ?thesis by (simp add: named_figure_def set_current_scene_current)
qed

text \<open>
  C2. When the name is a string, or an integer made into \<open>'Mayavi Scene n'\<close>, and some
  scene of the engine bears it, \<^verbatim>\<open>figure\<close> returns the first scene of \<^verbatim>\<open>engine.scenes\<close>
  with that name and makes it the engine's current scene; nothing else in the world
  changes, and no call is made into the engine: \<^verbatim>\<open>new_scene\<close> is not called.
\<close>

theorem figure_retrieves_existing:
  assumes "\<exists>a \<in> set (scenes (engines (world st) e)). name (objects (world st) a) = nm'"
    and "e = (case eng of None \<Rightarrow> get_engine (world st) | Some e' \<Rightarrow> e')"
    and "nm = NameInt k \<and> nm' = scene_name k \<or> nm = NameStr nm'"
  shows "\<exists>pre a post.
           scenes (engines (world st) e) = pre @ a # post
         \<and> (\<forall>b \<in> set pre. name (objects (world st) b) \<noteq> nm')
         \<and> name (objects (world st) a) = nm'
         \<and> fst (figure ns nm bg fg eng sz st) = Inr a
         \<and> world (snd (figure ns nm bg fg eng sz st)) = set_current_scene e a (world st)
         \<and> current_scene (engines (world (snd (figure ns nm bg fg eng sz st))) e) = Some a
         \<and> trace (snd (figure ns nm bg fg eng sz st)) = trace st"
proof -
  from find_scene_first [OF assms(1)] obtain pre a post where
    p: "scenes (engines (world st) e) = pre @ a # post"
       "\<forall>b \<in> set pre. name (objects (world st) b) \<noteq> nm'"
       "name (objects (world st) a) = nm'"
       "find_scene (objects (world st)) nm' (scenes (engines (world st) e)) = Some a" by blast
  from assms(3) have
    f: "fst (figure ns nm bg fg eng sz st) = Inr a
      \<and> world (snd (figure ns nm bg fg eng sz st)) = set_current_scene e a (world st)
      \<and> trace (snd (figure ns nm bg fg eng sz st)) = trace st"
  proof
    assume "nm = NameInt k \<and> nm' = scene_name k"
    with p(4) assms(2) show ?thesis by (simp add: figure_def named_figure_def)
  next
    assume "nm = NameStr nm'"
    with p(4) assms(2) show ?thesis by (simp add: figure_def named_figure_def)
  qed
  then have "current_scene (engines (world (snd (figure ns nm bg fg eng sz st))) e) = Some a"
    by (simp add: set_current_scene_current)
  with p f show ?thesis by blast
qed

theorem figure_retrieves_existing_witness:
  "(\<exists>a \<in> set (scenes (engines (world state1) 0)). name (objects (world state1) a) = ''x'')
   \<and> 0 = (case None of None \<Rightarrow> get_engine (world state1) | Some e' \<Rightarrow> e')
   \<and> (\<exists>pre a post.
           scenes (engines (world state1) 0) = pre @ a # post
         \<and> (\<forall>b \<in> set pre. name (objects (world state1) b) \<noteq> ''x'')
         \<and> name (objects (world state1) a) = ''x''
         \<and> fst (figure ns0 (NameStr ''x'') None None None (400, 350) state1) = Inr a
         \<and> trace (snd (figure ns0 (NameStr ''x'') None None None (400, 350) state1)) = trace state1)"
proof -
  have h1: "\<exists>a \<in> set (scenes (engines (world state1) 0)). name (objects (world state1) a) = ''x''"
    by (simp add: state1_def world1_def)
  have h2: "0 = (case None of None \<Rightarrow> get_engine (world state1) | Some e' \<Rightarrow> e')"
    by (simp add: run_defs)
  have h3: "NameStr ''x'' = NameInt 0 \<and> ''x'' = scene_name 0 \<or> NameStr ''x'' = NameStr ''x''"
    by simp
  from figure_retrieves_existing [OF h1 h2 h3, of ns0 None None "(400, 350)"] h1 h2
  show ?thesis by blast
qed

subsection \<open>Background and foreground colours\<close>

lemma setup_scene_colours:
  assumes "setup_scene bg fg e st = (Inr a, st')"
    and "scene (objects (world st') a) = Present (Some sc)"
  shows "background sc = (case bg of None \<Rightarrow> background_color (options (world st')) | Some c \<Rightarrow> c)
       \<and> foreground sc = (case fg of None \<Rightarrow> foreground_color (options (world st')) | Some c \<Rightarrow> c)"
  using assms
  by (auto simp: setup_scene_def Let_def split: option.splits attr.splits)

lemma create_figure_colours:
  assumes "create_figure ns nm bg fg e sz st = (Inr a, st')"
    and "scene (objects (world st') a) = Present (Some sc)"
  shows "background sc = (case bg of None \<Rightarrow> background_color (options (world st')) | Some c \<Rightarrow> c)
       \<and> foreground sc = (case fg of None \<Rightarrow> foreground_color (options (world st')) | Some c \<Rightarrow> c)"
proof (cases "new_named_scene ns nm sz e st")
  case (Pair r st2)
  show ?thesis
  proof (cases r)
    case None
    with Pair assms(1) have "setup_scene bg fg e st2 = (Inr a, st')"
      by (simp add: create_figure_def)
    from setup_scene_colours [OF this assms(2)] show ?thesis .
  next
    case (Some x)
    with Pair assms(1) show ?thesis by (simp add: create_figure_def)
  qed
qed

lemma creation_path_colours:
  assumes "e = (case eng of None \<Rightarrow> get_engine (world st) | Some e' \<Rightarrow> e')"
    and "nm = NameNone
       \<or> (\<exists>k. nm = NameInt k \<and> (\<forall>b \<in> set (scenes (engines (world st) e)).
               name (objects (world st) b) \<noteq> scene_name k))
       \<or> (\<exists>s. nm = NameStr s \<and> (\<forall>b \<in> set (scenes (engines (world st) e)).
               name (objects (world st) b) \<noteq> s))"
    and "figure ns nm bg fg eng sz st = (Inr a, st')"
    and "scene (objects (world st') a) = Present (Some sc)"
  shows "background sc = (case bg of None \<Rightarrow> background_color (options (world st')) | Some c \<Rightarrow> c)
       \<and> foreground sc = (case fg of None \<Rightarrow> foreground_color (options (world st')) | Some c \<Rightarrow> c)"
proof -
  from assms(2) consider (auto) "nm = NameNone"
    | (int) k where "nm = NameInt k"
        "\<forall>b \<in> set (scenes (engines (world st) e)). name (objects (world st) b) \<noteq> scene_name k"
    | (str) s where "nm = NameStr s"
        "\<forall>b \<in> set (scenes (engines (world st) e)). name (objects (world st) b) \<noteq> s"
    by blast
  then show ?thesis
  proof cases
    case auto
    with assms(3) have ne: "scene_number_list st \<noteq> {||}" by (auto simp: figure_def)
    from assms(3) show ?thesis
      unfolding auto figure_auto [OF ne] using create_figure_colours assms(4) by blast
  next
    case int
    let ?st = "st\<lparr>scene_number_list := finsert k (scene_number_list st)\<rparr>"
    from int(2) have "find_scene (objects (world ?st)) (scene_name k)
        (scenes (engines (world ?st) e)) = None"
      by (simp add: find_scene_None)
    with assms(1,3) int(1) have "create_figure ns (scene_name k) bg fg e sz ?st = (Inr a, st')"
      by (simp add: figure_def named_figure_def)
    from create_figure_colours [OF this assms(4)] show ?thesis .
  next
    case str
    from str(2) have "find_scene (objects (world st)) s (scenes (engines (world st) e)) = None"
      by (simp add: find_scene_None)
    with assms(1,3) str(1) have "create_figure ns s bg fg e sz st = (Inr a, st')"
      by (simp add: figure_def named_figure_def)
    from create_figure_colours [OF this assms(4)] show ?thesis .
  qed
qed

text \<open>
  C3, as amended. On the creation path (\<^verbatim>\<open>name=None\<close>, or a name that no scene of the
  engine bears), when \<^verbatim>\<open>figure\<close> returns a figure with a scene attached, the scene's
  background is \<^verbatim>\<open>bgcolor\<close>, or \<^verbatim>\<open>options.background_color\<close> when \<^verbatim>\<open>bgcolor\<close> is
  \<^verbatim>\<open>None\<close>, and its foreground is \<^verbatim>\<open>fgcolor\<close>, or \<^verbatim>\<open>options.foreground_color\<close>. On the
  retrieval path the scene found is returned at once and no object is written: its
  colours stay what they were.
\<close>

theorem figure_sets_colours_on_creation:
  assumes "e = (case eng of None \<Rightarrow> get_engine (world st) | Some e' \<Rightarrow> e')"
  shows "(nm = NameNone
          \<or> (\<exists>k. nm = NameInt k \<and> (\<forall>b \<in> set (scenes (engines (world st) e)).
                  name (objects (world st) b) \<noteq> scene_name k))
          \<or> (\<exists>s. nm = NameStr s \<and> (\<forall>b \<in> set (scenes (engines (world st) e)).
                  name (objects (world st) b) \<noteq> s))
          \<longrightarrow> (\<forall>a st' sc. figure ns nm bg fg eng sz st = (Inr a, st')
                  \<and> scene (objects (world st') a) = Present (Some sc) \<longrightarrow>
                background sc =
                  (case bg of None \<Rightarrow> background_color (options (world st')) | Some c \<Rightarrow> c)
              \<and> foreground sc =
                  (case fg of None \<Rightarrow> foreground_color (options (world st')) | Some c \<Rightarrow> c)))
       \<and> ((\<exists>k. nm = NameInt k \<and> (\<exists>b \<in> set (scenes (engines (world st) e)).
                  name (objects (world st) b) = scene_name k))
          \<or> (\<exists>s. nm = NameStr s \<and> (\<exists>b \<in> set (scenes (engines (world st) e)).
                  name (objects (world st) b) = s))
          \<longrightarrow> objects (world (snd (figure ns nm bg fg eng sz st))) = objects (world st))"
proof -
  have r: "objects (world (snd (named_figure ns s bg fg e sz st0))) = objects (world st0)"
    if "\<exists>b \<in> set (scenes (engines (world st0) e)). name (objects (world st0) b) = s" for s st0
  proof -
    from find_scene_first [OF that] obtain a where
      "find_scene (objects (world st0)) s (scenes (engines (world st0) e)) = Some a" by blast
    then show ?thesis by (simp add: named_figure_found set_current_scene_def)
  qed
  have 2: "objects (world (snd (figure ns nm bg fg eng sz st))) = objects (world st)"
    if "(\<exists>k. nm = NameInt k \<and> (\<exists>b \<in> set (scenes (engines (world st) e)).
                  name (objects (world st) b) = scene_name k))
          \<or> (\<exists>s. nm = NameStr s \<and> (\<exists>b \<in> set (scenes (engines (world st) e)).
                  name (objects (world st) b) = s))"
    using that
  proof (elim disjE exE conjE)
    fix k assume "nm = NameInt k"
      "\<exists>b \<in> set (scenes (engines (world st) e)). name (objects (world st) b) = scene_name k"
    then show ?thesis
      using r [of "st\<lparr>scene_number_list := finsert k (scene_number_list st)\<rparr>" "scene_name k"] assms
      by (simp add: figure_def)
  next
    fix s assume "nm = NameStr s"
      "\<exists>b \<in> set (scenes (engines (world st) e)). name (objects (world st) b) = s"
    then show ?thesis
      using r [of st s] assms by (simp add: figure_def)
  qed
  show ?thesis
  proof (intro conjI impI allI)
    fix a st' sc
    assume c: "nm = NameNone
          \<or> (\<exists>k. nm = NameInt k \<and> (\<forall>b \<in> set (scenes (engines (world st) e)).
                  name (objects (world st) b) \<noteq> scene_name k))
          \<or> (\<exists>s. nm = NameStr s \<and> (\<forall>b \<in> set (scenes (engines (world st) e)).
                  name (objects (world st) b) \<noteq> s))"
      and f: "figure ns nm bg fg eng sz st = (Inr a, st')
                  \<and> scene (objects (world st') a) = Present (Some sc)"
    from f have f1: "figure ns nm bg fg eng sz st = (Inr a, st')"
      and f2: "scene (objects (world st') a) = Present (Some sc)" by simp_all
    from creation_path_colours [OF assms c f1 f2]
    show "background sc =
        (case bg of None \<Rightarrow> background_color (options (world st')) | Some c \<Rightarrow> c)"
      and "foreground sc =
        (case fg of None \<Rightarrow> foreground_color (options (world st')) | Some c \<Rightarrow> c)"
      by simp_all
  next
    assume "(\<exists>k. nm = NameInt k \<and> (\<exists>b \<in> set (scenes (engines (world st) e)).
                  name (objects (world st) b) = scene_name k))
          \<or> (\<exists>s. nm = NameStr s \<and> (\<exists>b \<in> set (scenes (engines (world st) e)).
                  name (objects (world st) b) = s))"
    then show "objects (world (snd (figure ns nm bg fg eng sz st))) = objects (world st)"
      by (rule 2)
  qed
qed

text \<open>
  The claim as stated fails on the retrieval path: the scene named \<open>x\<close> is returned with
  the colours it had, not the ones asked for.
\<close>

theorem figure_retrieval_keeps_colours:
  "fst (figure ns0 (NameStr ''x'') (Some white) (Some black) None (400, 350) state1) = Inr 1
   \<and> scene (objects (world (snd (figure ns0 (NameStr ''x'') (Some white) (Some black) None
        (400, 350) state1))) 1) = Present (Some viewer0)
   \<and> background viewer0 \<noteq> white \<and> foreground viewer0 \<noteq> black"
  by (simp add: run_defs)

theorem figure_sets_colours_on_creation_witness:
  "figure ns0 NameNone (Some white) None None (400, 350) state0 =
     (Inr 0, snd (figure ns0 NameNone (Some white) None None (400, 350) state0))
   \<and> scene (objects (world (snd (figure ns0 NameNone (Some white) None None (400, 350) state0))) 0)
       = Present (Some (viewer0\<lparr>background := white, foreground := white\<rparr>))
   \<and> background (viewer0\<lparr>background := white, foreground := white\<rparr>) = white
   \<and> foreground (viewer0\<lparr>background := white, foreground := white\<rparr>) =
       foreground_color (options (world (snd (figure ns0 NameNone (Some white) None None (400, 350) state0))))"
proof -
  let ?r = "figure ns0 NameNone (Some white) None None (400, 350) state0"
  have h1: "?r = (Inr 0, snd ?r)"
    by (simp add: run_defs prod_eq_iff)
  have h2: "scene (objects (world (snd ?r)) 0) =
      Present (Some (viewer0\<lparr>background := white, foreground := white\<rparr>))"
    by (simp add: run_defs)
  have h0: "get_engine (world state0) = (case None of None \<Rightarrow> get_engine (world state0) | Some e' \<Rightarrow> e')"
    by simp
  show ?thesis
    using h1 h2 figure_sets_colours_on_creation [OF h0, of NameNone ns0 "Some white" None "(400, 350)"]
    by simp
qed

subsection \<open>Clearing a figure\<close>

lemma clear_sequence_exn:
  "fst (clear_sequence a w) = None \<or> fst (clear_sequence a w) = Some AttributeError"
  by (simp add: clear_sequence_def Let_def split: attr.splits option.splits)

lemma clf_eq:
  assumes "target_figure ns arg st = (r, st1)"
  shows "clf ns arg st =
     (case r of
        Inl AttributeError \<Rightarrow> (Inr (), st1\<lparr>trace := trace st1 @ [GcCollect]\<rparr>)
      | Inl x \<Rightarrow> (Inl x, st1)
      | Inr a \<Rightarrow> (Inr (), st1\<lparr>world := snd (clear_sequence a (world st1)),
                              trace := trace st1 @ [GcCollect]\<rparr>))"
proof (cases r)
  case (Inl x)
  with assms show ?thesis by (cases x) (simp_all add: clf_def)
next
  case (Inr a)
  obtain y w where c: "clear_sequence a (world st1) = (y, w)" by (cases "clear_sequence a (world st1)")
  with clear_sequence_exn [of a "world st1"] have "y = None \<or> y = Some AttributeError" by simp
  with assms Inr c show ?thesis by (auto simp: clf_def)
qed

lemma clf_explicit:
  "clf ns (Some a) st =
     (Inr (), st\<lparr>world := snd (clear_sequence a (world st)), trace := trace st @ [GcCollect]\<rparr>)"
  using clf_eq [of ns "Some a" st "Inr a" st] by (simp add: target_figure_def)

text \<open>
  C4. For a figure with a scene attached and a list of children, \<^verbatim>\<open>clf(figure=f)\<close>
  returns normally and leaves the list of children of \<open>f\<close> empty.
\<close>

theorem clf_empties_children:
  assumes "scene (objects (world st) a) = Present (Some sc)"
    and "children (objects (world st) a) = Present cs"
  shows "fst (clf ns (Some a) st) = Inr ()
       \<and> children (objects (world (snd (clf ns (Some a) st))) a) = Present []"
  using assms by (simp add: clf_explicit clear_sequence_def Let_def)

theorem clf_empties_children_witness:
  "scene (objects (world state1) 0) = Present (Some viewer0)
   \<and> children (objects (world state1) 0) = Present [10, 11]
   \<and> fst (clf ns0 (Some 0) state1) = Inr ()
   \<and> children (objects (world (snd (clf ns0 (Some 0) state1))) 0) = Present []"
proof -
  have h1: "scene (objects (world state1) 0) = Present (Some viewer0)"
    by (simp add: state1_def world1_def)
  have h2: "children (objects (world state1) 0) = Present [10, 11]"
    by (simp add: state1_def world1_def)
  show ?thesis
    using h1 h2 clf_empties_children [OF h1 h2, of ns0] by simp
qed




text \<open>
  C6. \<^verbatim>\<open>clf\<close> never raises AttributeError. With a figure given it always returns
  normally; a figure whose scene is absent or \<^verbatim>\<open>None\<close> is left as it is. With no figure
  given, an AttributeError raised while \<^verbatim>\<open>gcf()\<close> runs is dropped as well, \<^verbatim>\<open>gc.collect()\<close>
  runs, and only an exception of another kind leaves \<^verbatim>\<open>clf\<close>.
\<close>

theorem clf_swallows_attribute_error:
  "fst (clf ns arg st) \<noteq> Inl AttributeError
   \<and> fst (clf ns (Some a) st) = Inr ()
   \<and> (fst (target_figure ns arg st) = Inl AttributeError \<longrightarrow>
        clf ns arg st = (Inr (), (snd (target_figure ns arg st))
                           \<lparr>trace := trace (snd (target_figure ns arg st)) @ [GcCollect]\<rparr>))
   \<and> (scene (objects (world st) a) = Absent \<or> scene (objects (world st) a) = Present None \<longrightarrow>
        clf ns (Some a) st = (Inr (), st\<lparr>trace := trace st @ [GcCollect]\<rparr>))
   \<and> fst (clf ns arg st) =
       (case fst (target_figure ns arg st) of
          Inl AttributeError \<Rightarrow> Inr () | Inl x \<Rightarrow> Inl x | Inr b \<Rightarrow> Inr ())"
proof -
  obtain r st1 where t: "target_figure ns arg st = (r, st1)" by (cases "target_figure ns arg st")
  have 1: "fst (clf ns arg st) \<noteq> Inl AttributeError"
    unfolding clf_eq [OF t] by (cases r; simp split: exn.splits)
  have 2: "fst (clf ns (Some a) st) = Inr ()" by (simp add: clf_explicit)
  have 3: "fst (target_figure ns arg st) = Inl AttributeError \<longrightarrow>
        clf ns arg st = (Inr (), (snd (target_figure ns arg st))
                           \<lparr>trace := trace (snd (target_figure ns arg st)) @ [GcCollect]\<rparr>)"
    unfolding clf_eq [OF t] t by simp
  have 4: "scene (objects (world st) a) = Absent \<or> scene (objects (world st) a) = Present None \<longrightarrow>
        clf ns (Some a) st = (Inr (), st\<lparr>trace := trace st @ [GcCollect]\<rparr>)"
    by (auto simp: clf_explicit clear_sequence_def)
  have 5: "fst (clf ns arg st) =
       (case fst (target_figure ns arg st) of
          Inl AttributeError \<Rightarrow> Inr () | Inl x \<Rightarrow> Inl x | Inr b \<Rightarrow> Inr ())"
    unfolding clf_eq [OF t] t by (cases r; simp split: exn.splits)
  from 1 2 3 4 5 show ?thesis by blast
qed

theorem clf_swallows_attribute_error_witness:
  "fst (target_figure (ns_raises AttributeError) None state0) = Inl AttributeError
   \<and> fst (clf (ns_raises AttributeError) None state0) = Inr ()
   \<and> scene (objects (world state1) 2) = Present None
   \<and> clf ns0 (Some 2) state1 = (Inr (), state1\<lparr>trace := trace state1 @ [GcCollect]\<rparr>)
   \<and> fst (clf (ns_raises EngineError) None state0) = Inl EngineError"
proof -
  have h1: "fst (target_figure (ns_raises AttributeError) None state0) = Inl AttributeError"
    by (simp add: run_defs)
  have h2: "scene (objects (world state1) 2) = Present None"
    by (simp add: state1_def world1_def)
  have h3: "fst (target_figure (ns_raises EngineError) None state0) = Inl EngineError"
    by (simp add: run_defs)
  show ?thesis
    using h1 h2 h3
      clf_swallows_attribute_error [of "ns_raises AttributeError" None state0]
      clf_swallows_attribute_error [of ns0 "Some 2" state1 2]
      clf_swallows_attribute_error [of "ns_raises EngineError" None state0]
    by auto
qed

subsection \<open>Who changes the set of scene numbers\<close>

lemma gcf_current:
  "current_scene (engines (world st) (case eng of None \<Rightarrow> get_engine (world st) | Some e \<Rightarrow> e)) = Some a
   \<Longrightarrow> gcf ns eng st = (Inr a, st)"
  by (simp add: gcf_def Let_def)

lemma gcf_none:
  "current_scene (engines (world st) (case eng of None \<Rightarrow> get_engine (world st) | Some e \<Rightarrow> e)) = None
   \<Longrightarrow> gcf ns eng st = figure ns NameNone None None
         (Some (case eng of None \<Rightarrow> get_engine (world st) | Some e \<Rightarrow> e)) (400, 350) st"
  by (simp add: gcf_def Let_def)

lemma gcf_numbers:
  "scene_number_list (snd (gcf ns eng st)) =
     (if current_scene (engines (world st)
            (case eng of None \<Rightarrow> get_engine (world st) | Some e \<Rightarrow> e)) = None
         \<and> scene_number_list st \<noteq> {||}
      then finsert (fMax (scene_number_list st) + 1) (scene_number_list st)
      else scene_number_list st)"
proof (cases "current_scene (engines (world st)
            (case eng of None \<Rightarrow> get_engine (world st) | Some e \<Rightarrow> e))")
  case None
  then show ?thesis by (simp add: gcf_none figure_numbers)
next
  case (Some a)
  then show ?thesis by (simp add: gcf_current)
qed

lemma clf_numbers:
  "scene_number_list (snd (clf ns arg st)) = scene_number_list (snd (target_figure ns arg st))"
proof (cases "target_figure ns arg st")
  case (Pair r st1)
  show ?thesis
  proof (cases r)
    case (Inl x)
    with Pair show ?thesis unfolding clf_eq [OF Pair] by (cases x) simp_all
  next
    case (Inr a)
    with Pair show ?thesis unfolding clf_eq [OF Pair] by simp
  qed
qed

lemma draw_numbers:
  "scene_number_list (snd (draw ns arg st)) = scene_number_list (snd (target_figure ns arg st))"
  by (cases "target_figure ns arg st") (simp add: draw_def split: sum.splits)

lemma savefig_numbers:
  "scene_number_list (snd (savefig ns f sz arg kw st)) =
   scene_number_list (snd (target_figure ns arg st))"
  by (cases "target_figure ns arg st")
     (simp add: savefig_def split: sum.splits attr.splits option.splits)

lemma target_figure_numbers:
  "scene_number_list (snd (target_figure ns arg st)) =
     (case arg of None \<Rightarrow> scene_number_list (snd (gcf ns None st)) | Some a \<Rightarrow> scene_number_list st)"
  by (cases arg) (simp_all add: target_figure_def)

text \<open>
  C7, as amended. \<^verbatim>\<open>gcf\<close>, \<^verbatim>\<open>clf\<close>, \<^verbatim>\<open>draw\<close> and \<^verbatim>\<open>savefig\<close> have no write of their own
  to the set of scene numbers. The set after \<^verbatim>\<open>gcf\<close> is the set before when the engine
  has a current scene, and otherwise the set that the call of \<^verbatim>\<open>figure\<close> made by \<^verbatim>\<open>gcf\<close>
  leaves, with one number more. \<^verbatim>\<open>clf\<close>, \<^verbatim>\<open>draw\<close> and \<^verbatim>\<open>savefig\<close> leave the set as it
  is when a figure is given, and as \<^verbatim>\<open>gcf()\<close> leaves it when none is given.
\<close>

theorem scene_numbers_change_only_through_figure:
  "scene_number_list (snd (gcf ns eng st)) =
     (if current_scene (engines (world st)
            (case eng of None \<Rightarrow> get_engine (world st) | Some e \<Rightarrow> e)) = None
         \<and> scene_number_list st \<noteq> {||}
      then finsert (fMax (scene_number_list st) + 1) (scene_number_list st)
      else scene_number_list st)
   \<and> scene_number_list (snd (gcf ns eng st)) =
       (if current_scene (engines (world st)
            (case eng of None \<Rightarrow> get_engine (world st) | Some e \<Rightarrow> e)) = None
        then scene_number_list (snd (figure ns NameNone None None
               (Some (case eng of None \<Rightarrow> get_engine (world st) | Some e \<Rightarrow> e)) (400, 350) st))
        else scene_number_list st)
   \<and> scene_number_list (snd (clf ns (Some a) st)) = scene_number_list st
   \<and> scene_number_list (snd (draw ns (Some a) st)) = scene_number_list st
   \<and> scene_number_list (snd (savefig ns f sz (Some a) kw st)) = scene_number_list st
   \<and> scene_number_list (snd (clf ns None st)) = scene_number_list (snd (gcf ns None st))
   \<and> scene_number_list (snd (draw ns None st)) = scene_number_list (snd (gcf ns None st))
   \<and> scene_number_list (snd (savefig ns f sz None kw st)) = scene_number_list (snd (gcf ns None st))"
proof -
  have g: "scene_number_list (snd (gcf ns eng st)) =
       (if current_scene (engines (world st)
            (case eng of None \<Rightarrow> get_engine (world st) | Some e \<Rightarrow> e)) = None
        then scene_number_list (snd (figure ns NameNone None None
               (Some (case eng of None \<Rightarrow> get_engine (world st) | Some e \<Rightarrow> e)) (400, 350) st))
        else scene_number_list st)"
    by (simp add: gcf_def Let_def split: option.splits)
  show ?thesis
    using g gcf_numbers [of ns eng st]
    by (simp add: clf_numbers draw_numbers savefig_numbers target_figure_numbers)
qed

text \<open>
  The claim as stated fails when the engine has no current scene: \<^verbatim>\<open>gcf\<close> calls
  \<^verbatim>\<open>figure\<close>, which adds a number.
\<close>

theorem gcf_adds_scene_number:
  "current_scene (engines (world state0) (get_engine (world state0))) = None
   \<and> scene_number_list state0 = {|0|}
   \<and> scene_number_list (snd (gcf ns0 None state0)) = {|1, 0|}
   \<and> scene_number_list (snd (gcf ns0 None state0)) \<noteq> scene_number_list state0"
  by (simp add: gcf_numbers) (simp add: run_defs)

theorem scene_numbers_change_only_through_figure_witness:
  "scene_number_list (snd (gcf ns0 None state1)) = {|1, 0|}
   \<and> scene_number_list (snd (clf ns0 None state1)) = {|1, 0|}
   \<and> scene_number_list (snd (savefig ns0 ''a.png'' None (Some 1) [] state1)) = {|1, 0|}
   \<and> scene_number_list (snd (draw ns0 None state0)) = {|1, 0|}"
proof -
  have c1: "current_scene (engines (world state1) (get_engine (world state1))) = Some 0"
    by (simp add: run_defs)
  have c0: "current_scene (engines (world state0) (get_engine (world state0))) = None"
    by (simp add: run_defs)
  have n1: "scene_number_list state1 = {|1, 0|}" by (simp add: state1_def)
  have n0: "finsert (fMax (scene_number_list state0) + 1) (scene_number_list state0) = {|1, 0|}"
    "scene_number_list state0 \<noteq> {||}"
    by (simp_all add: state0_def initial_numbers_def)
  show ?thesis
    using c1 n1 c0 n0
      scene_numbers_change_only_through_figure [of ns0 None state1 1 "''a.png''" None "[]"]
      scene_numbers_change_only_through_figure [of ns0 None state0]
    by simp
qed

subsection \<open>The current figure\<close>

lemma create_figure_engine_new_scene:
  "fst (create_figure (engine_new_scene v) nm bg fg e sz st) = Inr (next_addr (world st))
   \<and> scenes (engines (world (snd (create_figure (engine_new_scene v) nm bg fg e sz st))) e) =
       scenes (engines (world st) e) @ [next_addr (world st)]"
  by (cases v) (simp_all add: create_figure_def new_named_scene_def setup_scene_def
       engine_new_scene_def Let_def)

text \<open>
  C8. When the engine has a current scene, \<^verbatim>\<open>gcf\<close> returns it and changes nothing. When
  it has none, \<^verbatim>\<open>gcf\<close> is the call \<^verbatim>\<open>figure(engine=engine)\<close>: \<^verbatim>\<open>new_scene\<close> is called with
  the next automatic name, and the figure returned is the engine's current scene and bears
  that name. With the engine modelled above, the figure is a new object, added to the
  engine's scenes.
\<close>

theorem gcf_fetches_or_creates:
  assumes "e = (case eng of None \<Rightarrow> get_engine (world st) | Some e' \<Rightarrow> e')"
  shows "(\<forall>a. current_scene (engines (world st) e) = Some a \<longrightarrow> gcf ns eng st = (Inr a, st))
   \<and> (current_scene (engines (world st) e) = None \<longrightarrow>
        gcf ns eng st = figure ns NameNone None None (Some e) (400, 350) st
      \<and> (scene_number_list st \<noteq> {||} \<longrightarrow>
           (\<exists>cs. trace (snd (gcf ns eng st)) =
                   trace st @ NewScene e (scene_name (fMax (scene_number_list st) + 1)) (400, 350) # cs
                 \<and> new_scene_names cs = [])
         \<and> (\<forall>b. fst (gcf ns eng st) = Inr b \<longrightarrow>
               current_scene (engines (world (snd (gcf ns eng st))) e) = Some b
             \<and> name (objects (world (snd (gcf ns eng st))) b) =
                 scene_name (fMax (scene_number_list st) + 1))
         \<and> (\<forall>v. fst (gcf (engine_new_scene v) eng st) = Inr (next_addr (world st))
               \<and> scenes (engines (world (snd (gcf (engine_new_scene v) eng st))) e) =
                   scenes (engines (world st) e) @ [next_addr (world st)])))"
proof -
  have 1: "\<forall>a. current_scene (engines (world st) e) = Some a \<longrightarrow> gcf ns eng st = (Inr a, st)"
    using assms by (simp add: gcf_current)
  have 2: "gcf ns' eng st = figure ns' NameNone None None (Some e) (400, 350) st"
    if "current_scene (engines (world st) e) = None" for ns'
    using that assms gcf_none [of st eng ns'] by simp
  have 3: "\<exists>cs. trace (snd (gcf ns eng st)) =
               trace st @ NewScene e (scene_name (fMax (scene_number_list st) + 1)) (400, 350) # cs
             \<and> new_scene_names cs = []"
    if "current_scene (engines (world st) e) = None" "scene_number_list st \<noteq> {||}"
    unfolding 2 [OF that(1)] using figure_auto_trace [OF that(2), of ns None None "Some e" "(400, 350)"]
    by simp
  have 4: "current_scene (engines (world (snd (gcf ns eng st))) e) = Some b
         \<and> name (objects (world (snd (gcf ns eng st))) b) =
             scene_name (fMax (scene_number_list st) + 1)"
    if "current_scene (engines (world st) e) = None" "scene_number_list st \<noteq> {||}"
      "fst (gcf ns eng st) = Inr b" for b
  proof -
    let ?c = "create_figure ns (scene_name (fMax (scene_number_list st) + 1)) None None e (400, 350)
       (st\<lparr>scene_number_list := finsert (fMax (scene_number_list st) + 1) (scene_number_list st)\<rparr>)"
    have g: "gcf ns eng st = ?c"
      unfolding 2 [OF that(1)] figure_auto [OF that(2)] by simp
    with that(3) have "?c = (Inr b, snd ?c)" by (simp add: prod_eq_iff)
    from create_figure_result [OF this] show ?thesis unfolding g .
  qed
  have 5: "fst (gcf (engine_new_scene v) eng st) = Inr (next_addr (world st))
         \<and> scenes (engines (world (snd (gcf (engine_new_scene v) eng st))) e) =
             scenes (engines (world st) e) @ [next_addr (world st)]"
    if "current_scene (engines (world st) e) = None" "scene_number_list st \<noteq> {||}" for v
    unfolding 2 [OF that(1)] figure_auto [OF that(2)]
    using create_figure_engine_new_scene
      [of v _ None None e "(400, 350)"
          "st\<lparr>scene_number_list := finsert (fMax (scene_number_list st) + 1) (scene_number_list st)\<rparr>"]
    by simp
  from 1 2 3 4 5 show ?thesis by blast
qed

theorem gcf_fetches_or_creates_witness:
  "current_scene (engines (world state1) 0) = Some 0
   \<and> gcf ns0 None state1 = (Inr 0, state1)
   \<and> current_scene (engines (world state0) 0) = None
   \<and> scene_number_list state0 \<noteq> {||}
   \<and> fst (gcf (engine_new_scene (Some viewer0)) None state0) = Inr 0
   \<and> gcf ns0 None state0 = figure ns0 NameNone None None (Some 0) (400, 350) state0"
proof -
  have e1: "0 = (case None of None \<Rightarrow> get_engine (world state1) | Some e' \<Rightarrow> e')"
    by (simp add: run_defs)
  have e0: "0 = (case None of None \<Rightarrow> get_engine (world state0) | Some e' \<Rightarrow> e')"
    by (simp add: run_defs)
  have c1: "current_scene (engines (world state1) 0) = Some 0" by (simp add: run_defs)
  have c0: "current_scene (engines (world state0) 0) = None" by (simp add: run_defs)
  have n0: "scene_number_list state0 \<noteq> {||}" by (simp add: run_defs)
  have a0: "next_addr (world state0) = 0" by (simp add: run_defs)
  show ?thesis
    using c1 c0 n0 a0 gcf_fetches_or_creates [OF e1, of ns0] gcf_fetches_or_creates [OF e0, of ns0]
    by simp
qed

subsection \<open>Saving a figure\<close>

lemma save_calls_append: "save_calls (xs @ ys) = save_calls xs @ save_calls ys"
  by (induction xs rule: save_calls.induct) simp_all

lemma new_named_scene_save_calls:
  "save_calls (trace (snd (new_named_scene ns nm sz e st))) = save_calls (trace st)"
  by (simp add: new_named_scene_trace save_calls_append)

lemma setup_scene_save_calls:
  "save_calls (trace (snd (setup_scene bg fg e st))) = save_calls (trace st)"
  by (simp add: setup_scene_def Let_def save_calls_append split: option.splits attr.splits)

lemma create_figure_save_calls:
  "save_calls (trace (snd (create_figure ns nm bg fg e sz st))) = save_calls (trace st)"
proof (cases "new_named_scene ns nm sz e st")
  case (Pair r st2)
  have "save_calls (trace st2) = save_calls (trace st)"
    using new_named_scene_save_calls [of ns nm sz e st] Pair by simp
  with Pair show ?thesis
    by (cases r) (simp_all add: create_figure_def setup_scene_save_calls)
qed

lemma named_figure_save_calls:
  "save_calls (trace (snd (named_figure ns nm bg fg e sz st))) = save_calls (trace st)"
  unfolding named_figure_def
  by (cases "find_scene (objects (world st)) nm (scenes (engines (world st) e))")
     (simp_all add: create_figure_save_calls)

lemma figure_save_calls:
  "save_calls (trace (snd (figure ns nm bg fg eng sz st))) = save_calls (trace st)"
  by (cases nm) (simp_all add: figure_def Let_def named_figure_save_calls create_figure_save_calls)

lemma gcf_save_calls:
  "save_calls (trace (snd (gcf ns eng st))) = save_calls (trace st)"
  by (simp add: gcf_def Let_def figure_save_calls split: option.splits)

lemma target_figure_save_calls:
  "save_calls (trace (snd (target_figure ns arg st))) = save_calls (trace st)"
  by (cases arg) (simp_all add: target_figure_def gcf_save_calls)

text \<open>
  C9, as amended. The target of \<^verbatim>\<open>savefig\<close> is the figure given, or the result of
  \<^verbatim>\<open>gcf()\<close> when none is given. When the target has a scene attached, \<^verbatim>\<open>savefig\<close> calls
  \<^verbatim>\<open>figure.scene.save\<close> exactly once, with the filename, the size and the keyword
  arguments it was given, and does nothing else; it never looks at the filename. When the
  target has no scene attached, AttributeError leaves \<^verbatim>\<open>savefig\<close> and \<^verbatim>\<open>save\<close> is not
  called; an exception of \<^verbatim>\<open>gcf()\<close> leaves it as well.
\<close>

theorem savefig_delegates:
  "target_figure ns (Some a) st = (Inr a, st)
   \<and> target_figure ns None st = gcf ns None st
   \<and> (\<forall>b st1 sc. target_figure ns arg st = (Inr b, st1)
          \<and> scene (objects (world st1) b) = Present (Some sc) \<longrightarrow>
        savefig ns f sz arg kw st = (Inr (), st1\<lparr>trace := trace st1 @ [Save b f sz kw]\<rparr>)
      \<and> save_calls (trace (snd (savefig ns f sz arg kw st))) =
          save_calls (trace st) @ [Save b f sz kw])
   \<and> (\<forall>b st1. target_figure ns arg st = (Inr b, st1)
          \<and> (scene (objects (world st1) b) = Absent \<or> scene (objects (world st1) b) = Present None)
        \<longrightarrow> savefig ns f sz arg kw st = (Inl AttributeError, st1))
   \<and> (\<forall>x st1. target_figure ns arg st = (Inl x, st1) \<longrightarrow>
        savefig ns f sz arg kw st = (Inl x, st1))"
proof -
  have 1: "savefig ns f sz arg kw st = (Inr (), st1\<lparr>trace := trace st1 @ [Save b f sz kw]\<rparr>)
      \<and> save_calls (trace (snd (savefig ns f sz arg kw st))) =
          save_calls (trace st) @ [Save b f sz kw]"
    if "target_figure ns arg st = (Inr b, st1)" "scene (objects (world st1) b) = Present (Some sc)"
    for b st1 sc
  proof -
    have "save_calls (trace st1) = save_calls (trace st)"
      using target_figure_save_calls [of ns arg st] that(1) by simp
    with that show ?thesis by (simp add: savefig_def save_calls_append)
  qed
  have 2: "savefig ns f sz arg kw st = (Inl AttributeError, st1)"
    if "target_figure ns arg st = (Inr b, st1)"
      "scene (objects (world st1) b) = Absent \<or> scene (objects (world st1) b) = Present None"
    for b st1
    using that by (auto simp: savefig_def)
  have 3: "savefig ns f sz arg kw st = (Inl x, st1)"
    if "target_figure ns arg st = (Inl x, st1)" for x st1
    using that by (simp add: savefig_def)
  have 0: "target_figure ns (Some a) st = (Inr a, st)" "target_figure ns None st = gcf ns None st"
    by (simp_all add: target_figure_def)
  from 0 1 2 3 show ?thesis by blast
qed

text \<open>
  The claim as stated fails for a figure with no scene attached: \<^verbatim>\<open>save\<close> is not
  called.
\<close>

theorem savefig_without_scene_raises:
  "scene (objects (world state1) 2) = Present None
   \<and> fst (savefig ns0 ''out.png'' None (Some 2) [] state1) = Inl AttributeError
   \<and> save_calls (trace (snd (savefig ns0 ''out.png'' None (Some 2) [] state1))) = []"
  by (simp add: run_defs)

theorem savefig_delegates_witness:
  "target_figure ns0 (Some 1) state1 = (Inr 1, state1)
   \<and> scene (objects (world state1) 1) = Present (Some viewer0)
   \<and> savefig ns0 ''out.png'' (Some (800, 600)) (Some 1) [(''magnification'', PyInt 2)] state1 =
       (Inr (), state1\<lparr>trace := trace state1 @
          [Save 1 ''out.png'' (Some (800, 600)) [(''magnification'', PyInt 2)]]\<rparr>)"
proof -
  have h1: "target_figure ns0 (Some 1) state1 = (Inr 1, state1)"
    by (simp add: target_figure_def)
  have h2: "scene (objects (world state1) 1) = Present (Some viewer0)"
    by (simp add: state1_def world1_def)
  show ?thesis
    using h1 h2 savefig_delegates [of ns0 1 state1 "Some 1" "''out.png''" "Some (800, 600)"
      "[(''magnification'', PyInt 2)]"]
    by blast
qed

subsection \<open>The figure returned is the current scene\<close>

text \<open>
  C10. Whenever \<^verbatim>\<open>figure\<close> returns a figure, on the automatic-name path, the retrieval
  path and the named-creation path alike, that figure is the current scene of the engine
  the call worked on, in the state the call leaves.
\<close>

theorem figure_returns_current_scene:
  assumes "fst (figure ns nm bg fg eng sz st) = Inr a"
  shows "current_scene (engines (world (snd (figure ns nm bg fg eng sz st)))
           (case eng of None \<Rightarrow> get_engine (world st) | Some e \<Rightarrow> e)) = Some a"
proof (cases nm)
  case NameNone
  from assms NameNone have ne: "scene_number_list st \<noteq> {||}"
    by (auto simp: figure_def)
  let ?c = "figure ns NameNone bg fg eng sz st"
  from assms NameNone have "?c = (Inr a, snd ?c)" by (simp add: prod_eq_iff)
  then show ?thesis
    unfolding NameNone figure_auto [OF ne] by (rule create_figure_result [THEN conjunct1])
next
  case (NameInt k)
  with assms show ?thesis
    using named_figure_result by (simp add: figure_def)
next
  case (NameStr s)
  with assms show ?thesis
    using named_figure_result by (simp add: figure_def)
qed

theorem figure_returns_current_scene_witness:
  "fst (figure ns0 NameNone None None None (400, 350) state0) = Inr 0
   \<and> current_scene (engines (world (snd (figure ns0 NameNone None None None (400, 350) state0)))
        (get_engine (world state0))) = Some 0"
proof -
  have h: "fst (figure ns0 NameNone None None None (400, 350) state0) = Inr 0"
    by (simp add: figure_def create_figure_def new_named_scene_def setup_scene_def ns0_def
      engine_new_scene_def state0_def world0_def initial_numbers_def get_engine_def Let_def viewer0_def)
  show ?thesis
    using h figure_returns_current_scene [OF h] by simp
qed

end
